theory Spec2Isabelle
  imports Main "HOL-Library.Word"
begin

section \<open>The entry point of the server: data\<close>

text \<open>
  The development embeds \<^verbatim>\<open>main.go\<close>: the flags registered by \<^verbatim>\<open>init\<close>, the
  start-up sequence of \<^verbatim>\<open>main\<close> (lines 169 to 316) as a state-passing function that
  records every call and goroutine start in a trace, and the goroutines that \<^verbatim>\<open>main\<close>
  leaves running (lines 262 to 334) as an interleaving of atomic steps over the channels,
  wait groups and the context they share.

  The results of the calls into other packages (\<^verbatim>\<open>wal.NewSQLiteWAL\<close>,
  \<^verbatim>\<open>wl.Init\<close>, \<^verbatim>\<open>startProfiling\<close>, \<^verbatim>\<open>FindPortAndBind\<close>,
  \<^verbatim>\<open>runtime.NumCPU\<close>) are inputs of the model, collected in the record \<open>env\<close>.
\<close>

datatype signal = SIGTERM | SIGINT | SIGKILL

datatype wal_backend = NullWAL | SQLiteWAL | AOFWAL

datatype server_kind = RESPServer | AsyncServer | HTTPServer | WebSocketServer

text \<open>The value of the variable \<^verbatim>\<open>stopProfiling\<close> at the \<^verbatim>\<open>defer\<close> of line 276:
  \<^verbatim>\<open>startProfiling\<close> returns \<^verbatim>\<open>nil\<close> for it together with every error.\<close>

datatype stop_fn = NilFunc | CleanupFunc

text \<open>Contexts are numbered in the order of their creation.\<close>

datatype ctx = Ctx nat

text \<open>The goroutines, other than those of \<^verbatim>\<open>runServer\<close>, that \<^verbatim>\<open>main\<close> starts and
  later waits for or depends on: lines 262, 307 and 313.\<close>

datatype goroutine = ShardManagerRun | SignalWaiter | Closer

text \<open>The flags that \<^verbatim>\<open>main\<close> reads. \<^verbatim>\<open>NumShards\<close> is a Go \<^verbatim>\<open>int\<close>.\<close>

record config =
  EnableHTTP :: bool
  EnableWebsocket :: bool
  EnableMultiThreading :: bool
  NumShards :: int
  EnableWatch :: bool
  EnableProfiling :: bool
  EnableWAL :: bool
  RestoreFromWAL :: bool
  WALEngine :: string

text \<open>The defaults given to \<^verbatim>\<open>flag.BoolVar\<close>, \<^verbatim>\<open>flag.IntVar\<close> and
  \<^verbatim>\<open>flag.StringVar\<close> in \<^verbatim>\<open>init\<close>.\<close>

definition default_config :: config where
  "default_config =
     \<lparr> EnableHTTP = False, EnableWebsocket = False, EnableMultiThreading = False,
       NumShards = - 1, EnableWatch = False, EnableProfiling = False,
       EnableWAL = False, RestoreFromWAL = False, WALEngine = ''null'' \<rparr>"

text \<open>
  What the surroundings decide: the number of cores, whether each fallible call returns a
  nil error, and \<open>early_signal\<close>, a signal that the operating system delivers after
  line 179 and before \<^verbatim>\<open>main\<close> first sends on the channel \<^verbatim>\<open>sigs\<close> (or, when it
  never sends, before start-up is over). \<^verbatim>\<open>signal.Notify\<close> of line 179 puts only
  SIGTERM and SIGINT on the channel, and no goroutine receives from it during start-up.
\<close>

record env =
  NumCPU :: int
  sqlite_ok :: bool
  aof_ok :: bool
  wal_init_ok :: bool
  profiling_ok :: bool
  bind_ok :: bool
  early_signal :: "signal option"

definition default_env :: env where
  "default_env =
     \<lparr> NumCPU = 8, sqlite_ok = True, aof_ok = True, wal_init_ok = True,
       profiling_ok = True, bind_ok = True, early_signal = None \<rparr>"

text \<open>One event for each call or goroutine start of \<^verbatim>\<open>main\<close>, in program order. The
  boolean of a fallible call is \<open>True\<close> when its error is nil.\<close>

datatype event =
    GoPing
  | WithCancel ctx
  | NotifySigs
  | NewNullWAL
  | NewSQLiteWAL bool
  | NewAOFWAL bool
  | UnsupportedEngine
  | SendSigs signal
  | WalInit bool
  | GoInitBG
  | ReplayWAL
  | MakeWatchChans
  | NewShardManager "8 word"
  | GoShardManagerRun ctx
  | StartProfiling bool
  | DeferStop stop_fn
  | NewWorkerManager
  | NewServer server_kind
  | FindPortAndBind bool
  | GoRunServer server_kind ctx
  | GoSignalWaiter ctx
  | GoCloser

text \<open>How a run of \<^verbatim>\<open>main\<close> ends: it returns, it panics, or it blocks for ever in a
  send on \<^verbatim>\<open>sigs\<close>. A Go process whose \<^verbatim>\<open>main\<close> returns exits with status 0,
  one that panics exits with status 2.\<close>

datatype outcome = Returned | Panicked | BlockedOnSend

fun exit_status :: "outcome \<Rightarrow> nat option" where
  "exit_status Returned = Some 0"
| "exit_status Panicked = Some 2"
| "exit_status BlockedOnSend = None"

text \<open>The variables of \<^verbatim>\<open>main\<close> that the start-up sequence sets or changes: the trace,
  the variable \<^verbatim>\<open>ctx\<close> of line 175 and whether it has been cancelled, the buffer of
  \<^verbatim>\<open>sigs\<close> (capacity 1), \<^verbatim>\<open>wl\<close>, the counters of the two wait groups, the servers
  handed to \<^verbatim>\<open>runServer\<close>, the other goroutines started and the deferred calls.\<close>

record mstate =
  trace :: "event list"
  ctx :: ctx
  ctxDone :: bool
  sigs :: "signal list"
  wl :: wal_backend
  wg :: nat
  serverWg :: nat
  started :: "server_kind list"
  spawned :: "goroutine list"
  deferred :: "stop_fn list"

section \<open>The start-up sequence\<close>

definition emit :: "event \<Rightarrow> mstate \<Rightarrow> mstate" where
  "emit e st = st\<lparr>trace := trace st @ [e]\<rparr>"

text \<open>\<^verbatim>\<open>signal.Notify(sigs, syscall.SIGTERM, syscall.SIGINT)\<close>: the runtime sends a
  registered signal without blocking, so it is dropped when the buffer is full.\<close>

definition notify :: "signal \<Rightarrow> signal list \<Rightarrow> signal list" where
  "notify s buf = (if s \<in> {SIGTERM, SIGINT} \<and> length buf < 1 then buf @ [s] else buf)"

text \<open>\<^verbatim>\<open>sigs <- syscall.SIGKILL\<close>: no goroutine receives from \<^verbatim>\<open>sigs\<close> before line
  309, so during start-up the send completes only when the buffer has room.\<close>

definition send_SIGKILL :: "mstate \<Rightarrow> (outcome \<times> mstate) + mstate" where
  "send_SIGKILL st =
     (if length (sigs st) < 1
      then Inr (emit (SendSigs SIGKILL) (st\<lparr>sigs := sigs st @ [SIGKILL]\<rparr>))
      else Inl (BlockedOnSend, st))"

text \<open>\<^verbatim>\<open>sigs <- syscall.SIGKILL; return\<close> (lines 196, 204 and 210).\<close>

definition abort :: "mstate \<Rightarrow> (outcome \<times> mstate) + mstate" where
  "abort st =
     (case send_SIGKILL st of
        Inl h \<Rightarrow> Inl h
      | Inr st' \<Rightarrow> Inl (Returned, st'))"

text \<open>Lines 175 to 179. The context of line 175 is the first one created; nothing in
  lines 175 to 316 calls \<^verbatim>\<open>cancel\<close>.\<close>

definition prologue :: "env \<Rightarrow> mstate" where
  "prologue e =
     \<lparr> trace = [GoPing, WithCancel (Ctx 0), NotifySigs],
       ctx = Ctx 0, ctxDone = False,
       sigs = (case early_signal e of None \<Rightarrow> [] | Some s \<Rightarrow> notify s []),
       wl = NullWAL, wg = 0, serverWg = 0, started = [], spawned = [], deferred = [] \<rparr>"

text \<open>Lines 192 to 212: the choice of the backend.\<close>

definition select_wal :: "config \<Rightarrow> env \<Rightarrow> mstate \<Rightarrow> (outcome \<times> mstate) + mstate" where
  "select_wal c e st =
     (if WALEngine c = ''sqlite'' then
        (let st1 = emit (NewSQLiteWAL (sqlite_ok e)) st in
         if \<not> sqlite_ok e then abort st1 else Inr (st1\<lparr>wl := SQLiteWAL\<rparr>))
      else if WALEngine c = ''aof'' then
        (let st1 = emit (NewAOFWAL (aof_ok e)) st in
         if \<not> aof_ok e then abort st1 else Inr (st1\<lparr>wl := AOFWAL\<rparr>))
      else abort (emit UnsupportedEngine st))"

text \<open>Lines 214 to 226: \<^verbatim>\<open>Init\<close>, the background flusher, the replay.\<close>

definition init_wal :: "config \<Rightarrow> env \<Rightarrow> mstate \<Rightarrow> mstate" where
  "init_wal c e st =
     (let st1 = emit (WalInit (wal_init_ok e)) st;
          st2 = (if \<not> wal_init_ok e then st1 else emit GoInitBG st1)
      in if RestoreFromWAL c then emit ReplayWAL st2 else st2)"

text \<open>Lines 189 to 227.\<close>

definition wal_setup :: "config \<Rightarrow> env \<Rightarrow> mstate \<Rightarrow> (outcome \<times> mstate) + mstate" where
  "wal_setup c e st =
     (let st0 = emit NewNullWAL (st\<lparr>wl := NullWAL\<rparr>) in
      if EnableWAL c then
        (case select_wal c e st0 of
           Inl h \<Rightarrow> Inl h
         | Inr st1 \<Rightarrow> Inr (init_wal c e st1))
      else Inr st0)"

text \<open>Lines 229 to 233.\<close>

definition watch_setup :: "config \<Rightarrow> mstate \<Rightarrow> mstate" where
  "watch_setup c st = (if EnableWatch c then emit MakeWatchChans st else st)"

text \<open>Lines 240 to 248.\<close>

definition numShards :: "config \<Rightarrow> env \<Rightarrow> int" where
  "numShards c e =
     (if EnableMultiThreading c then
        (let n = NumCPU e in if NumShards c > 0 then NumShards c else n)
      else 1)"

text \<open>Lines 257 to 265: \<^verbatim>\<open>uint8(numShards)\<close> keeps the low eight bits.\<close>

definition shard_setup :: "config \<Rightarrow> env \<Rightarrow> mstate \<Rightarrow> mstate" where
  "shard_setup c e st =
     (let st1 = emit (NewShardManager (word_of_int (numShards c e))) st;
          st2 = st1\<lparr>wg := wg st1 + 1, spawned := spawned st1 @ [ShardManagerRun]\<rparr>
      in emit (GoShardManagerRun (ctx st2)) st2)"

text \<open>\<^verbatim>\<open>serverWg.Add(1); go runServer(ctx, &serverWg, srv, serverErrCh)\<close>.\<close>

definition go_runServer :: "server_kind \<Rightarrow> mstate \<Rightarrow> mstate" where
  "go_runServer k st =
     emit (GoRunServer k (ctx st))
       (st\<lparr>serverWg := serverWg st + 1, started := started st @ [k]\<rparr>)"

text \<open>Lines 270 to 282, the branch of \<^verbatim>\<open>config.EnableMultiThreading\<close>.\<close>

definition resp_setup :: "config \<Rightarrow> env \<Rightarrow> mstate \<Rightarrow> (outcome \<times> mstate) + mstate" where
  "resp_setup c e st =
     (case (if EnableProfiling c then
              (let st1 = emit (StartProfiling (profiling_ok e)) st;
                   f = (if profiling_ok e then CleanupFunc else NilFunc)
               in case (if \<not> profiling_ok e then send_SIGKILL st1 else Inr st1) of
                    Inl h \<Rightarrow> Inl h
                  | Inr st2 \<Rightarrow>
                      Inr (emit (DeferStop f) (st2\<lparr>deferred := f # deferred st2\<rparr>)))
            else Inr st) of
        Inl h \<Rightarrow> Inl h
      | Inr st3 \<Rightarrow>
          Inr (go_runServer RESPServer (emit (NewServer RESPServer) (emit NewWorkerManager st3))))"

text \<open>Lines 284 to 297, the other branch.\<close>

definition async_setup :: "config \<Rightarrow> env \<Rightarrow> mstate \<Rightarrow> (outcome \<times> mstate) + mstate" where
  "async_setup c e st =
     (let st1 = emit (FindPortAndBind (bind_ok e)) (emit (NewServer AsyncServer) st) in
      case (if \<not> bind_ok e then send_SIGKILL st1 else Inr st1) of
        Inl h \<Rightarrow> Inl h
      | Inr st2 \<Rightarrow>
          (let st3 = go_runServer AsyncServer st2 in
           Inr (if EnableHTTP c
                then go_runServer HTTPServer (emit (NewServer HTTPServer) st3)
                else st3)))"

text \<open>Lines 300 to 304.\<close>

definition websocket_setup :: "config \<Rightarrow> mstate \<Rightarrow> mstate" where
  "websocket_setup c st =
     (if EnableWebsocket c
      then go_runServer WebSocketServer (emit (NewServer WebSocketServer) st)
      else st)"

text \<open>Lines 306 to 316: the goroutine that waits for a signal and the one that closes
  \<^verbatim>\<open>serverErrCh\<close>.\<close>

definition spawn_helpers :: "mstate \<Rightarrow> mstate" where
  "spawn_helpers st =
     (let st1 = emit (GoSignalWaiter (ctx st))
                  (st\<lparr>wg := wg st + 1, spawned := spawned st @ [SignalWaiter]\<rparr>)
      in emit GoCloser (st1\<lparr>spawned := spawned st1 @ [Closer]\<rparr>))"

text \<open>Lines 269 to 316.\<close>

definition wiring :: "config \<Rightarrow> env \<Rightarrow> mstate \<Rightarrow> (outcome \<times> mstate) + mstate" where
  "wiring c e st =
     (case (if EnableMultiThreading c then resp_setup c e st else async_setup c e st) of
        Inl h \<Rightarrow> Inl h
      | Inr st1 \<Rightarrow> Inr (spawn_helpers (websocket_setup c st1)))"

text \<open>\<^verbatim>\<open>main\<close> up to line 316. \<open>Inl\<close> is a run that ends during start-up, \<open>Inr\<close>
  one that reaches the loop over \<^verbatim>\<open>serverErrCh\<close>.\<close>

definition startup :: "config \<Rightarrow> env \<Rightarrow> (outcome \<times> mstate) + mstate" where
  "startup c e =
     (case wal_setup c e (prologue e) of
        Inl h \<Rightarrow> Inl h
      | Inr st \<Rightarrow> wiring c e (shard_setup c e (watch_setup c st)))"

text \<open>The variables of \<^verbatim>\<open>main\<close> where start-up stops or is over, the trace of a run,
  and the outcome of one that ended during start-up.\<close>

definition final :: "(outcome \<times> mstate) + mstate \<Rightarrow> mstate" where
  "final r = (case r of Inl (h, st) \<Rightarrow> st | Inr st \<Rightarrow> st)"

definition run_trace :: "config \<Rightarrow> env \<Rightarrow> event list" where
  "run_trace c e = trace (final (startup c e))"

definition early_outcome :: "config \<Rightarrow> env \<Rightarrow> outcome option" where
  "early_outcome c e = (case startup c e of Inl (h, st) \<Rightarrow> Some h | Inr st \<Rightarrow> None)"

section \<open>The goroutines that \<^verbatim>\<open>main\<close> leaves running\<close>

text \<open>
  From line 318 on, \<^verbatim>\<open>main\<close> runs beside the goroutines it has started: one
  \<^verbatim>\<open>runServer\<close> for each front-end, the goroutine around \<^verbatim>\<open>shardManager.Run\<close>,
  the one that waits on \<^verbatim>\<open>sigs\<close> and the one that closes \<^verbatim>\<open>serverErrCh\<close>. A run
  is a schedule: a list of actions, each an atomic step of one goroutine or the delivery
  of a signal by the operating system. When \<^verbatim>\<open>srv.Run\<close> and
  \<^verbatim>\<open>shardManager.Run\<close> return, and with which error, is for the schedule to choose.
  What \<^verbatim>\<open>shardManager\<close> does with \<^verbatim>\<open>serverErrCh\<close> is in another package and is
  left out, and so are \<^verbatim>\<open>observability.Ping\<close> and \<^verbatim>\<open>wal.InitBG\<close>, which share
  nothing with \<^verbatim>\<open>main\<close>.

  The goroutines take their first step when start-up is over. Until then \<^verbatim>\<open>main\<close>
  shares with them only the wait groups, whose \<^verbatim>\<open>Add\<close> comes before each
  \<^verbatim>\<open>go\<close>, and the context, which start-up does not cancel; so a step that a
  goroutine takes earlier can as well be taken at line 318.
\<close>

datatype err = ErrAborted | Canceled | ErrServerClosed | OtherError

text \<open>\<^verbatim>\<open>runServer\<close>: \<^verbatim>\<open>srv.Run(ctx)\<close> is running; it returned an error that is being
  sent on \<^verbatim>\<open>errCh\<close>; the body is over and the deferred \<^verbatim>\<open>wg.Done()\<close> is next; done.\<close>

datatype task = NotStarted | Running | Sending err | Exiting | Finished

text \<open>The statement of \<^verbatim>\<open>main\<close> that is next: the loop of line 318, line 326,
  line 328, line 332, line 334, or none.\<close>

datatype pc = Ranging | ClosingSigs | ShuttingDownWAL | Cancelling | Waiting | Ended outcome

text \<open>Lines 307 to 311: not started, before \<^verbatim>\<open><-sigs\<close>, between it and
  \<^verbatim>\<open>cancel()\<close>, over.\<close>

datatype waiter = NoWaiter | AwaitSignal | GotSignal | WaiterDone

datatype action =
    ServerReturn server_kind "err option"
  | ServerSend server_kind
  | ServerDone server_kind
  | CloserClose
  | MainStep
  | WaiterRecv
  | WaiterCancel
  | ShardManagerReturn
  | OsSignal signal

record proc =
  pc :: pc
  tasks :: "server_kind \<Rightarrow> task"
  srvWg :: nat
  errCh :: "err list"
  errClosed :: bool
  sigBuf :: "signal list"
  sigClosed :: bool
  waiter :: waiter
  closerStarted :: bool
  cancelled :: bool
  shardMgrRunning :: bool
  mainWg :: nat
  walShutdown :: bool
  stops :: "stop_fn list"
  crashed :: bool

text \<open>The state in which \<^verbatim>\<open>main\<close> enters the loop of line 318: the goroutines are
  those that start-up has started, and \<open>cancelled\<close> is the state of the context of
  line 175, which is the one that \<^verbatim>\<open>cancel\<close> cancels.\<close>

definition init_proc :: "mstate \<Rightarrow> proc" where
  "init_proc st =
     \<lparr> pc = Ranging,
       tasks = (\<lambda>k. if k \<in> set (started st) then Running else NotStarted),
       srvWg = serverWg st, errCh = [], errClosed = False,
       sigBuf = sigs st, sigClosed = False,
       waiter = (if SignalWaiter \<in> set (spawned st) then AwaitSignal else NoWaiter),
       closerStarted = (Closer \<in> set (spawned st)),
       cancelled = ctxDone st,
       shardMgrRunning = (ShardManagerRun \<in> set (spawned st)), mainWg = wg st,
       walShutdown = False, stops = deferred st, crashed = False \<rparr>"

text \<open>Lines 318 to 334, one statement at a time. The loop takes one error from the
  channel, or ends when the channel is closed and empty, or blocks. The deferred call of
  line 276 runs when \<^verbatim>\<open>main\<close> returns, and calling a nil function panics.\<close>

definition main_step :: "config \<Rightarrow> proc \<Rightarrow> proc option" where
  "main_step c s =
     (case pc s of
        Ranging \<Rightarrow>
          (case errCh s of
             er # rest \<Rightarrow>
               Some (s\<lparr>errCh := rest,
                       cancelled := (if er = ErrAborted then True else cancelled s)\<rparr>)
           | [] \<Rightarrow> if errClosed s then Some (s\<lparr>pc := ClosingSigs\<rparr>) else None)
      | ClosingSigs \<Rightarrow> Some (s\<lparr>sigClosed := True, pc := ShuttingDownWAL\<rparr>)
      | ShuttingDownWAL \<Rightarrow>
          Some (s\<lparr>walShutdown := (if EnableWAL c then True else walShutdown s),
                  pc := Cancelling\<rparr>)
      | Cancelling \<Rightarrow> Some (s\<lparr>cancelled := True, pc := Waiting\<rparr>)
      | Waiting \<Rightarrow>
          (if mainWg s = 0
           then Some (s\<lparr>pc := Ended (if NilFunc \<in> set (stops s) then Panicked else Returned)\<rparr>)
           else None)
      | Ended h \<Rightarrow> None)"

text \<open>\<^verbatim>\<open>runServer\<close> (lines 337 to 354). \<^verbatim>\<open>errCh\<close> has capacity 2; a send on a closed
  channel panics.\<close>

definition server_return :: "server_kind \<Rightarrow> err option \<Rightarrow> proc \<Rightarrow> proc option" where
  "server_return k r s =
     (if tasks s k = Running
      then Some (s\<lparr>tasks := (tasks s)(k := (case r of None \<Rightarrow> Exiting | Some er \<Rightarrow> Sending er))\<rparr>)
      else None)"

definition server_send :: "server_kind \<Rightarrow> proc \<Rightarrow> proc option" where
  "server_send k s =
     (case tasks s k of
        Sending er \<Rightarrow>
          (if errClosed s then Some (s\<lparr>crashed := True\<rparr>)
           else if length (errCh s) < 2
           then Some (s\<lparr>errCh := errCh s @ [er], tasks := (tasks s)(k := Exiting)\<rparr>)
           else None)
      | _ \<Rightarrow> None)"

definition server_done :: "server_kind \<Rightarrow> proc \<Rightarrow> proc option" where
  "server_done k s =
     (if tasks s k = Exiting
      then Some (s\<lparr>tasks := (tasks s)(k := Finished), srvWg := srvWg s - 1\<rparr>)
      else None)"

text \<open>Lines 313 to 316: \<^verbatim>\<open>serverWg.Wait()\<close> returns when the counter is zero, and the
  channel is closed. No \<^verbatim>\<open>Add\<close> follows line 303, so the two are one step.\<close>

definition closer_close :: "proc \<Rightarrow> proc option" where
  "closer_close s =
     (if closerStarted s \<and> srvWg s = 0 \<and> \<not> errClosed s
      then Some (s\<lparr>errClosed := True\<rparr>) else None)"

text \<open>Lines 307 to 311. A receive from a closed and empty channel returns at once.\<close>

definition waiter_recv :: "proc \<Rightarrow> proc option" where
  "waiter_recv s =
     (if waiter s = AwaitSignal then
        (case sigBuf s of
           sg # rest \<Rightarrow> Some (s\<lparr>sigBuf := rest, waiter := GotSignal\<rparr>)
         | [] \<Rightarrow> if sigClosed s then Some (s\<lparr>waiter := GotSignal\<rparr>) else None)
      else None)"

definition waiter_cancel :: "proc \<Rightarrow> proc option" where
  "waiter_cancel s =
     (if waiter s = GotSignal
      then Some (s\<lparr>cancelled := True, waiter := WaiterDone, mainWg := mainWg s - 1\<rparr>)
      else None)"

text \<open>Lines 262 to 265.\<close>

definition shard_manager_return :: "proc \<Rightarrow> proc option" where
  "shard_manager_return s =
     (if shardMgrRunning s
      then Some (s\<lparr>shardMgrRunning := False, mainWg := mainWg s - 1\<rparr>)
      else None)"

text \<open>The runtime hands a registered signal to \<^verbatim>\<open>sigs\<close>; \<^verbatim>\<open>main\<close> closes the
  channel at line 326 without \<^verbatim>\<open>signal.Stop\<close>, and the runtime's send on the closed
  channel panics. SIGKILL cannot be caught and is no action of the model.\<close>

definition os_signal :: "signal \<Rightarrow> proc \<Rightarrow> proc option" where
  "os_signal sg s =
     (if sg \<in> {SIGTERM, SIGINT}
      then (if sigClosed s then Some (s\<lparr>crashed := True\<rparr>)
            else Some (s\<lparr>sigBuf := notify sg (sigBuf s)\<rparr>))
      else None)"

text \<open>No goroutine takes a step once the process is over.\<close>

definition alive :: "proc \<Rightarrow> bool" where
  "alive s = (\<not> crashed s \<and> (case pc s of Ended h \<Rightarrow> False | _ \<Rightarrow> True))"

definition step :: "config \<Rightarrow> action \<Rightarrow> proc \<Rightarrow> proc option" where
  "step c a s =
     (if \<not> alive s then None
      else case a of
        ServerReturn k r \<Rightarrow> server_return k r s
      | ServerSend k \<Rightarrow> server_send k s
      | ServerDone k \<Rightarrow> server_done k s
      | CloserClose \<Rightarrow> closer_close s
      | MainStep \<Rightarrow> main_step c s
      | WaiterRecv \<Rightarrow> waiter_recv s
      | WaiterCancel \<Rightarrow> waiter_cancel s
      | ShardManagerReturn \<Rightarrow> shard_manager_return s
      | OsSignal sg \<Rightarrow> os_signal sg s)"

fun exec :: "config \<Rightarrow> action list \<Rightarrow> proc \<Rightarrow> proc option" where
  "exec c [] s = Some s"
| "exec c (a # as) s = (case step c a s of None \<Rightarrow> None | Some s' \<Rightarrow> exec c as s')"

text \<open>The state after start-up and a schedule; \<open>None\<close> when the run ended during
  start-up or the schedule asks for a step that is not enabled.\<close>

definition reach :: "config \<Rightarrow> env \<Rightarrow> action list \<Rightarrow> proc option" where
  "reach c e as = (case startup c e of Inl h \<Rightarrow> None | Inr st \<Rightarrow> exec c as (init_proc st))"

text \<open>The exit status of the process in a state, if it is over.\<close>

definition process_status :: "proc \<Rightarrow> nat option" where
  "process_status s =
     (if crashed s then Some 2 else case pc s of Ended h \<Rightarrow> exit_status h | _ \<Rightarrow> None)"

section \<open>What every reachable state satisfies\<close>

text \<open>A \<^verbatim>\<open>runServer\<close> goroutine that has not yet called \<^verbatim>\<open>wg.Done()\<close>.\<close>

fun live :: "task \<Rightarrow> bool" where
  "live Running = True"
| "live (Sending er) = True"
| "live Exiting = True"
| "live NotStarted = False"
| "live Finished = False"

definition live_count :: "proc \<Rightarrow> nat" where
  "live_count s =
     length (filter (\<lambda>k. live (tasks s k)) [RESPServer, AsyncServer, HTTPServer, WebSocketServer])"

fun past_shutdown :: "pc \<Rightarrow> bool" where
  "past_shutdown Ranging = False"
| "past_shutdown ClosingSigs = False"
| "past_shutdown ShuttingDownWAL = False"
| "past_shutdown Cancelling = True"
| "past_shutdown Waiting = True"
| "past_shutdown (Ended h) = True"

text \<open>The counter of \<^verbatim>\<open>serverWg\<close> counts the live servers; \<^verbatim>\<open>serverErrCh\<close> is closed
  only at counter zero; \<^verbatim>\<open>main\<close> leaves its loop only on a closed and empty channel;
  \<^verbatim>\<open>wal.ShutdownBG\<close> has been called exactly when \<^verbatim>\<open>enable-wal\<close> is true and
  \<^verbatim>\<open>main\<close> is past line 329; the goroutine of line 307 has been started and ends
  only after \<^verbatim>\<open>cancel()\<close>; the deferred calls are those of start-up; and
  \<^verbatim>\<open>main\<close> ends in a panic exactly when a deferred function is nil.\<close>

definition proc_inv :: "config \<Rightarrow> mstate \<Rightarrow> proc \<Rightarrow> bool" where
  "proc_inv c st s =
     (srvWg s = live_count s \<and>
      (errClosed s \<longrightarrow> srvWg s = 0) \<and>
      (pc s \<noteq> Ranging \<longrightarrow> errClosed s \<and> errCh s = []) \<and>
      walShutdown s = (EnableWAL c \<and> past_shutdown (pc s)) \<and>
      (waiter s = WaiterDone \<longrightarrow> cancelled s) \<and>
      waiter s \<noteq> NoWaiter \<and>
      stops s = deferred st \<and>
      (\<forall>h. pc s = Ended h \<longrightarrow>
           h = (if NilFunc \<in> set (deferred st) then Panicked else Returned)))"

section \<open>Failures and the send that follows them\<close>



section \<open>The events of each phase\<close>

text \<open>The events that lines 189 to 227 can add to the trace, and those that lines 229 to
  316 can add.\<close>

abbreviation wal_events :: "env \<Rightarrow> event set" where
  "wal_events e \<equiv>
     {NewNullWAL, NewSQLiteWAL (sqlite_ok e), NewAOFWAL (aof_ok e), UnsupportedEngine,
      SendSigs SIGKILL, WalInit (wal_init_ok e), GoInitBG, ReplayWAL}"

abbreviation wiring_events :: "config \<Rightarrow> env \<Rightarrow> event set" where
  "wiring_events c e \<equiv>
     {MakeWatchChans, NewShardManager (word_of_int (numShards c e)), GoShardManagerRun (Ctx 0),
      StartProfiling (profiling_ok e), DeferStop (if profiling_ok e then CleanupFunc else NilFunc),
      NewWorkerManager, NewServer RESPServer, NewServer AsyncServer, NewServer HTTPServer,
      NewServer WebSocketServer, FindPortAndBind (bind_ok e), GoRunServer RESPServer (Ctx 0),
      GoRunServer AsyncServer (Ctx 0), GoRunServer HTTPServer (Ctx 0),
      GoRunServer WebSocketServer (Ctx 0), GoSignalWaiter (Ctx 0), GoCloser, SendSigs SIGKILL}"

section \<open>The trace of the start-up sequence\<close>

lemma emit_simps [simp]:
  "trace (emit x st) = trace st @ [x]" "sigs (emit x st) = sigs st" "wl (emit x st) = wl st"
  "wg (emit x st) = wg st" "serverWg (emit x st) = serverWg st" "started (emit x st) = started st"
  "deferred (emit x st) = deferred st" "ctx (emit x st) = ctx st"
  "ctxDone (emit x st) = ctxDone st" "spawned (emit x st) = spawned st"
  by (simp_all add: emit_def)

lemmas stage_defs = wal_setup_def select_wal_def init_wal_def abort_def send_SIGKILL_def
  watch_setup_def shard_setup_def go_runServer_def resp_setup_def async_setup_def
  websocket_setup_def spawn_helpers_def wiring_def final_def

lemma wal_setup_events:
  "\<exists>evs. trace (final (wal_setup c e st)) = trace st @ evs \<and>
     set evs \<subseteq> wal_events e \<and>
     (ReplayWAL \<in> set evs \<longleftrightarrow> EnableWAL c \<and> RestoreFromWAL c \<and> \<not> isl (wal_setup c e st)) \<and>
     (\<not> EnableWAL c \<longrightarrow> evs = [NewNullWAL])"
  by (simp add: stage_defs Let_def)

lemma wal_setup_ctx: "wal_setup c e st = Inr st' \<Longrightarrow> ctx st' = ctx st"
  by (auto simp: stage_defs Let_def split: if_splits)

lemma wal_Inr_ctx: "wal_setup c e (prologue e) = Inr st \<Longrightarrow> ctx st = Ctx 0"
  using wal_setup_ctx [of c e "prologue e" st] by (simp add: prologue_def)

lemma later_events:
  "ctx st = Ctx 0 \<Longrightarrow>
   \<exists>evs. trace (final (wiring c e (shard_setup c e (watch_setup c st)))) = trace st @ evs \<and>
     set evs \<subseteq> wiring_events c e \<and>
     NewShardManager (word_of_int (numShards c e)) \<in> set evs"
  by (simp add: stage_defs Let_def)

lemma startup_Inl: "wal_setup c e (prologue e) = Inl h \<Longrightarrow> startup c e = Inl h"
  by (simp add: startup_def)

lemma startup_Inr: "wal_setup c e (prologue e) = Inr st \<Longrightarrow> startup c e = wiring c e (shard_setup c e (watch_setup c st))"
  by (simp add: startup_def)

lemma run_trace_shape:
  "\<exists>w p. run_trace c e = [GoPing, WithCancel (Ctx 0), NotifySigs] @ w @ p \<and>
     set w \<subseteq> wal_events e \<and>
     (ReplayWAL \<in> set w \<longleftrightarrow> EnableWAL c \<and> RestoreFromWAL c \<and> \<not> isl (wal_setup c e (prologue e))) \<and>
     (\<not> EnableWAL c \<longrightarrow> w = [NewNullWAL]) \<and>
     set p \<subseteq> wiring_events c e \<and>
     (if isl (wal_setup c e (prologue e)) then p = []
      else NewShardManager (word_of_int (numShards c e)) \<in> set p)"
proof -
  obtain w where w: "trace (final (wal_setup c e (prologue e))) = trace (prologue e) @ w"
    "set w \<subseteq> wal_events e"
    "ReplayWAL \<in> set w \<longleftrightarrow> EnableWAL c \<and> RestoreFromWAL c \<and> \<not> isl (wal_setup c e (prologue e))"
    "\<not> EnableWAL c \<longrightarrow> w = [NewNullWAL]"
    using wal_setup_events [of c e "prologue e"] by blast
  have pro: "trace (prologue e) = [GoPing, WithCancel (Ctx 0), NotifySigs]"
    by (simp add: prologue_def)
  show ?thesis
  proof (cases "wal_setup c e (prologue e)")
    case (Inl h)
    then have "run_trace c e = [GoPing, WithCancel (Ctx 0), NotifySigs] @ w @ []"
      using w(1) pro by (simp add: run_trace_def startup_Inl)
    with w(2,3,4) Inl show ?thesis by (intro exI [of _ w] exI [of _ "[]"]) simp
  next
    case (Inr st)
    obtain p where p: "trace (final (wiring c e (shard_setup c e (watch_setup c st)))) = trace st @ p"
      "set p \<subseteq> wiring_events c e"
      "NewShardManager (word_of_int (numShards c e)) \<in> set p"
      using later_events [OF wal_Inr_ctx [OF Inr], where c = c and e = e] by blast
    have "trace st = [GoPing, WithCancel (Ctx 0), NotifySigs] @ w"
      using w(1) pro Inr by (simp add: final_def)
    then have "run_trace c e = [GoPing, WithCancel (Ctx 0), NotifySigs] @ w @ p"
      using p(1) Inr by (simp add: run_trace_def startup_Inr)
    with w(2,3,4) p(2,3) Inr show ?thesis by (intro exI [of _ w] exI [of _ p]) simp
  qed
qed

lemma shard_manager_arg:
  "NewShardManager n \<in> set (run_trace c e) \<Longrightarrow> n = word_of_int (numShards c e)"
  using run_trace_shape [of c e] by auto

section \<open>The number of shards\<close>

lemmas eval_defs = run_trace_def early_outcome_def startup_def prologue_def numShards_def notify_def
  default_config_def default_env_def stage_defs Let_def

lemma uint8_conv: "uint (word_of_int n :: 8 word) = n mod 256"
  by (simp add: uint_word_of_int)

text \<open>C3 as stated fails: with the default \<^verbatim>\<open>enable-multithreading\<close> (false) and
  \<^verbatim>\<open>num-shards\<close> 4, the shard manager is created with one shard, not four.\<close>

theorem C3_counterexample:
  "NewShardManager 1 \<in> set (run_trace (default_config\<lparr>NumShards := 4\<rparr>) default_env) \<and>
   NewShardManager 4 \<notin> set (run_trace (default_config\<lparr>NumShards := 4\<rparr>) default_env)"
  by (simp add: eval_defs)

text \<open>C3, amended: on a machine with fewer than 256 cores and with \<^verbatim>\<open>num-shards\<close> below
  256, every shard manager that \<^verbatim>\<open>main\<close> creates has \<^verbatim>\<open>num-shards\<close> shards when
  \<^verbatim>\<open>enable-multithreading\<close> is true and \<^verbatim>\<open>num-shards\<close> is positive, as many as there
  are cores when \<^verbatim>\<open>enable-multithreading\<close> is true and \<^verbatim>\<open>num-shards\<close> is not positive
  (so for -1), and one shard when \<^verbatim>\<open>enable-multithreading\<close> is false; and the shard
  manager is created in every run that the WAL set-up does not end.\<close>

theorem C3_shards_created:
  assumes "0 < NumCPU e" and "NumCPU e < 256" and "NumShards c < 256"
  shows "(\<forall>n. NewShardManager n \<in> set (run_trace c e) \<longrightarrow>
            int (unat n) = (if EnableMultiThreading c
                            then (if 0 < NumShards c then NumShards c else NumCPU e)
                            else 1)) \<and>
         (\<not> isl (wal_setup c e (prologue e)) \<longrightarrow> (\<exists>n. NewShardManager n \<in> set (run_trace c e)))"
proof (intro conjI allI impI)
  fix n assume "NewShardManager n \<in> set (run_trace c e)"
  then have "n = word_of_int (numShards c e)"
    by (rule shard_manager_arg)
  then have "int (unat n) = numShards c e mod 256"
    by (simp add: uint8_conv)
  moreover have "0 \<le> numShards c e" "numShards c e < 256"
    using assms by (auto simp: numShards_def)
  ultimately show "int (unat n) = (if EnableMultiThreading c
                            then (if 0 < NumShards c then NumShards c else NumCPU e)
                            else 1)"
    by (simp add: numShards_def)
next
  assume "\<not> isl (wal_setup c e (prologue e))"
  then show "\<exists>n. NewShardManager n \<in> set (run_trace c e)"
    using run_trace_shape [of c e] by auto
qed

theorem C3_shards_created_witness:
  "0 < NumCPU default_env \<and> NumCPU default_env < 256 \<and>
   NumShards (default_config\<lparr>EnableMultiThreading := True, NumShards := 4\<rparr>) < 256 \<and>
   NewShardManager 4 \<in> set (run_trace (default_config\<lparr>EnableMultiThreading := True, NumShards := 4\<rparr>) default_env) \<and>
   int (unat (4 :: 8 word)) = 4 \<and>
   \<not> isl (wal_setup (default_config\<lparr>EnableMultiThreading := True, NumShards := 4\<rparr>) default_env (prologue default_env))"
  using C3_shards_created [of default_env "default_config\<lparr>EnableMultiThreading := True, NumShards := 4\<rparr>"]
  by (simp add: eval_defs)

text \<open>C5 as stated fails in its last part: with the default \<^verbatim>\<open>enable-multithreading\<close>
  (false), \<^verbatim>\<open>num-shards\<close> 256 gives a shard manager of one shard, not of zero.\<close>

theorem C5_counterexample:
  "NewShardManager 1 \<in> set (run_trace (default_config\<lparr>NumShards := 256\<rparr>) default_env) \<and>
   NewShardManager 0 \<notin> set (run_trace (default_config\<lparr>NumShards := 256\<rparr>) default_env)"
  by (simp add: eval_defs)

text \<open>C5, amended: the count handed to \<^verbatim>\<open>NewShardManager\<close> is the computed
  \<^verbatim>\<open>numShards\<close> modulo 256; whenever \<^verbatim>\<open>num-shards\<close> is at least 256 it is smaller than
  \<^verbatim>\<open>num-shards\<close>; and with \<^verbatim>\<open>enable-multithreading\<close> true, \<^verbatim>\<open>num-shards\<close> 256 gives
  zero shards.\<close>

theorem C5_uint8_shard_count:
  assumes "NewShardManager n \<in> set (run_trace c e)"
  shows "int (unat n) = numShards c e mod 256 \<and>
         (256 \<le> NumShards c \<longrightarrow> int (unat n) < NumShards c) \<and>
         (EnableMultiThreading c \<and> NumShards c = 256 \<longrightarrow> n = 0)"
proof -
  have n: "n = word_of_int (numShards c e)"
    using assms by (rule shard_manager_arg)
  then have m: "int (unat n) = numShards c e mod 256"
    by (simp add: uint8_conv)
  have "int (unat n) < NumShards c" if "256 \<le> NumShards c"
  proof (cases "EnableMultiThreading c")
    case True
    then have "numShards c e = NumShards c" using that by (simp add: numShards_def)
    moreover have "NumShards c mod 256 < 256" by simp
    ultimately show ?thesis using m that by linarith
  next
    case False
    then show ?thesis using m that by (simp add: numShards_def)
  qed
  moreover have "n = 0" if "EnableMultiThreading c \<and> NumShards c = 256"
    using n that by (simp add: numShards_def)
  ultimately show ?thesis using m by blast
qed

theorem C5_uint8_shard_count_witness:
  "NewShardManager 0 \<in> set (run_trace (default_config\<lparr>EnableMultiThreading := True, NumShards := 256\<rparr>) default_env) \<and>
   int (unat (0 :: 8 word)) = numShards (default_config\<lparr>EnableMultiThreading := True, NumShards := 256\<rparr>) default_env mod 256 \<and>
   256 \<le> NumShards (default_config\<lparr>EnableMultiThreading := True, NumShards := 256\<rparr>) \<and>
   int (unat (0 :: 8 word)) < NumShards (default_config\<lparr>EnableMultiThreading := True, NumShards := 256\<rparr>)"
proof -
  have h: "NewShardManager 0 \<in> set (run_trace (default_config\<lparr>EnableMultiThreading := True, NumShards := 256\<rparr>) default_env)"
    by (simp add: eval_defs)
  show ?thesis
    using h C5_uint8_shard_count [OF h] by (simp add: default_config_def)
qed

section \<open>Failures, replay, front-ends and the WAL engine\<close>

lemma wal_setup_frame:
  "wal_setup c e st = Inr st' \<Longrightarrow>
     sigs st' = sigs st \<and> wg st' = wg st \<and> serverWg st' = serverWg st \<and>
     started st' = started st \<and> deferred st' = deferred st \<and>
     spawned st' = spawned st \<and> ctxDone st' = ctxDone st"
  by (auto simp: stage_defs Let_def split: if_splits)

lemma later_wl:
  "wl (final (wiring c e (shard_setup c e (watch_setup c st)))) = wl st"
  by (simp add: stage_defs Let_def)

subsection \<open>Every failure is followed by the send\<close>







subsection \<open>The replay comes before the front-ends\<close>

text \<open>C4: with \<^verbatim>\<open>enable-wal\<close> and \<^verbatim>\<open>restore-wal\<close> both true, every construction of a
  front-end, every \<^verbatim>\<open>FindPortAndBind\<close> and every start of \<^verbatim>\<open>runServer\<close> comes later in
  the trace than the call of \<^verbatim>\<open>wal.ReplayWAL\<close>. The call is not a \<^verbatim>\<open>go\<close> statement, so
  \<^verbatim>\<open>main\<close> goes on only when it has returned.\<close>

theorem C4_replay_before_frontends:
  assumes "EnableWAL c" and "RestoreFromWAL c"
    and "i < length (run_trace c e)"
    and "run_trace c e ! i \<in> {NewServer k, FindPortAndBind ok, GoRunServer k x}"
  shows "\<exists>j<i. run_trace c e ! j = ReplayWAL"
proof -
  obtain w p where tr: "run_trace c e = ([GoPing, WithCancel (Ctx 0), NotifySigs] @ w) @ p"
    and w: "set w \<subseteq> wal_events e"
    and r: "ReplayWAL \<in> set w \<longleftrightarrow>
              EnableWAL c \<and> RestoreFromWAL c \<and> \<not> isl (wal_setup c e (prologue e))"
    and p: "if isl (wal_setup c e (prologue e)) then p = []
            else NewShardManager (word_of_int (numShards c e)) \<in> set p"
    using run_trace_shape [of c e] by auto
  let ?pre = "[GoPing, WithCancel (Ctx 0), NotifySigs] @ w"
  have "run_trace c e ! i \<notin> set ?pre"
    using w assms(4) by auto
  then have "\<not> i < length ?pre"
    using tr by (metis nth_append nth_mem)
  then have le: "length ?pre \<le> i" by simp
  then have "p \<noteq> []"
    using assms(3) tr by auto
  then have "ReplayWAL \<in> set ?pre"
    using p r assms(1,2) by (auto split: if_splits)
  then obtain j where j: "j < length ?pre" "?pre ! j = ReplayWAL"
    by (meson in_set_conv_nth)
  then have "run_trace c e ! j = ReplayWAL"
    using tr by (simp only: nth_append if_True)
  moreover have "j < i" using j(1) le by simp
  ultimately show ?thesis by blast
qed

lemma C4_ex_trace:
  "run_trace (default_config\<lparr>EnableWAL := True, WALEngine := ''aof'', RestoreFromWAL := True,
                              EnableHTTP := True, EnableWebsocket := True\<rparr>) default_env =
     [GoPing, WithCancel (Ctx 0), NotifySigs, NewNullWAL, NewAOFWAL True,
      WalInit True, GoInitBG, ReplayWAL, NewShardManager 1, GoShardManagerRun (Ctx 0),
      NewServer AsyncServer, FindPortAndBind True, GoRunServer AsyncServer (Ctx 0),
      NewServer HTTPServer, GoRunServer HTTPServer (Ctx 0), NewServer WebSocketServer,
      GoRunServer WebSocketServer (Ctx 0), GoSignalWaiter (Ctx 0), GoCloser]"
  by (simp add: eval_defs)

theorem C4_replay_before_frontends_witness:
  "EnableWAL (default_config\<lparr>EnableWAL := True, WALEngine := ''aof'', RestoreFromWAL := True,
                              EnableHTTP := True, EnableWebsocket := True\<rparr>) \<and>
   RestoreFromWAL (default_config\<lparr>EnableWAL := True, WALEngine := ''aof'', RestoreFromWAL := True,
                              EnableHTTP := True, EnableWebsocket := True\<rparr>) \<and>
   12 < length (run_trace (default_config\<lparr>EnableWAL := True, WALEngine := ''aof'', RestoreFromWAL := True,
                              EnableHTTP := True, EnableWebsocket := True\<rparr>) default_env) \<and>
   run_trace (default_config\<lparr>EnableWAL := True, WALEngine := ''aof'', RestoreFromWAL := True,
                              EnableHTTP := True, EnableWebsocket := True\<rparr>) default_env ! 12 =
     GoRunServer AsyncServer (Ctx 0) \<and>
   (\<exists>j<12. run_trace (default_config\<lparr>EnableWAL := True, WALEngine := ''aof'', RestoreFromWAL := True,
                              EnableHTTP := True, EnableWebsocket := True\<rparr>) default_env ! j = ReplayWAL)"
  using C4_replay_before_frontends [of "default_config\<lparr>EnableWAL := True, WALEngine := ''aof'',
      RestoreFromWAL := True, EnableHTTP := True, EnableWebsocket := True\<rparr>" 12 default_env
      AsyncServer True "Ctx 0"]
  by (simp add: C4_ex_trace)

subsection \<open>Without the WAL, no replay\<close>

lemma main_step_EnableWAL: "EnableWAL c' = EnableWAL c \<Longrightarrow> main_step c' s = main_step c s"
  by (cases "pc s") (simp_all add: main_step_def)

lemma step_EnableWAL: "EnableWAL c' = EnableWAL c \<Longrightarrow> step c' a s = step c a s"
  by (cases a) (simp_all add: step_def main_step_EnableWAL [of c' c])

lemma exec_EnableWAL: "EnableWAL c' = EnableWAL c \<Longrightarrow> exec c' as s = exec c as s"
  by (induction as arbitrary: s) (simp_all add: step_EnableWAL [of c' c] split: option.splits)

lemma wal_setup_disabled:
  "\<not> EnableWAL c \<Longrightarrow> wal_setup c e st = Inr (emit NewNullWAL (st\<lparr>wl := NullWAL\<rparr>))"
  by (simp add: wal_setup_def)

lemma later_RestoreFromWAL:
  "wiring (c\<lparr>RestoreFromWAL := b\<rparr>) e (shard_setup (c\<lparr>RestoreFromWAL := b\<rparr>) e (watch_setup (c\<lparr>RestoreFromWAL := b\<rparr>) st)) =
   wiring c e (shard_setup c e (watch_setup c st))"
  by (simp add: stage_defs numShards_def Let_def cong: sum.case_cong if_cong)

lemma startup_RestoreFromWAL:
  "\<not> EnableWAL c \<Longrightarrow> startup (c\<lparr>RestoreFromWAL := b\<rparr>) e = startup c e"
  by (simp add: startup_def wal_setup_disabled later_RestoreFromWAL)

text \<open>C7: \<^verbatim>\<open>wal.ReplayWAL\<close> is called only when \<^verbatim>\<open>enable-wal\<close> and \<^verbatim>\<open>restore-wal\<close> are
  both true; when \<^verbatim>\<open>enable-wal\<close> is false, the value of \<^verbatim>\<open>restore-wal\<close> changes neither
  start-up nor what follows it, neither \<^verbatim>\<open>NewSQLiteWAL\<close> nor \<^verbatim>\<open>NewAOFWAL\<close> is called, and
  \<^verbatim>\<open>wl\<close> is the null WAL.\<close>

theorem C7_replay_needs_both_flags:
  "(ReplayWAL \<in> set (run_trace c e) \<longrightarrow> EnableWAL c \<and> RestoreFromWAL c) \<and>
   (\<not> EnableWAL c \<longrightarrow>
      startup (c\<lparr>RestoreFromWAL := b\<rparr>) e = startup c e \<and>
      reach (c\<lparr>RestoreFromWAL := b\<rparr>) e as = reach c e as \<and>
      (\<forall>ok. NewSQLiteWAL ok \<notin> set (run_trace c e) \<and> NewAOFWAL ok \<notin> set (run_trace c e)) \<and>
      wl (final (startup c e)) = NullWAL)"
proof (intro conjI impI)
  show "EnableWAL c" "RestoreFromWAL c" if "ReplayWAL \<in> set (run_trace c e)"
    using that run_trace_shape [of c e] by auto
next
  assume off: "\<not> EnableWAL c"
  show eq: "startup (c\<lparr>RestoreFromWAL := b\<rparr>) e = startup c e"
    using off by (rule startup_RestoreFromWAL)
  show "reach (c\<lparr>RestoreFromWAL := b\<rparr>) e as = reach c e as"
    by (simp add: reach_def eq exec_EnableWAL [of "c\<lparr>RestoreFromWAL := b\<rparr>" c] split: sum.splits)
  show "\<forall>ok. NewSQLiteWAL ok \<notin> set (run_trace c e) \<and> NewAOFWAL ok \<notin> set (run_trace c e)"
    using off run_trace_shape [of c e] by auto
  show "wl (final (startup c e)) = NullWAL"
    using off by (simp add: startup_def wal_setup_disabled later_wl emit_def)
qed

theorem C7_replay_needs_both_flags_witness:
  "ReplayWAL \<in> set (run_trace (default_config\<lparr>EnableWAL := True, WALEngine := ''aof'', RestoreFromWAL := True,
                              EnableHTTP := True, EnableWebsocket := True\<rparr>) default_env) \<and>
   EnableWAL (default_config\<lparr>EnableWAL := True, WALEngine := ''aof'', RestoreFromWAL := True,
                              EnableHTTP := True, EnableWebsocket := True\<rparr>) \<and>
   \<not> EnableWAL default_config \<and>
   startup (default_config\<lparr>RestoreFromWAL := True\<rparr>) default_env = startup default_config default_env \<and>
   wl (final (startup default_config default_env)) = NullWAL"
proof -
  have a: "ReplayWAL \<in> set (run_trace (default_config\<lparr>EnableWAL := True, WALEngine := ''aof'',
      RestoreFromWAL := True, EnableHTTP := True, EnableWebsocket := True\<rparr>) default_env)"
    by (simp add: C4_ex_trace)
  have b: "\<not> EnableWAL default_config"
    by (simp add: default_config_def)
  show ?thesis
    using a b C7_replay_needs_both_flags [of default_config default_env True "[]"]
      C7_replay_needs_both_flags [of "default_config\<lparr>EnableWAL := True, WALEngine := ''aof'',
        RestoreFromWAL := True, EnableHTTP := True, EnableWebsocket := True\<rparr>" default_env True "[]"]
    by blast
qed

subsection \<open>Which front-ends are started\<close>

lemmas wal_defs = wal_setup_def select_wal_def init_wal_def abort_def send_SIGKILL_def final_def

lemma later_frontends:
  "ctx st = Ctx 0 \<Longrightarrow>
   \<exists>evs. trace (final (wiring c e (shard_setup c e (watch_setup c st)))) = trace st @ evs \<and>
     (\<not> isl (wiring c e (shard_setup c e (watch_setup c st))) \<longrightarrow>
        (NewServer HTTPServer \<in> set evs \<longleftrightarrow> EnableHTTP c \<and> \<not> EnableMultiThreading c) \<and>
        (GoRunServer HTTPServer (Ctx 0) \<in> set evs \<longleftrightarrow> EnableHTTP c \<and> \<not> EnableMultiThreading c) \<and>
        (NewServer WebSocketServer \<in> set evs \<longleftrightarrow> EnableWebsocket c) \<and>
        (GoRunServer WebSocketServer (Ctx 0) \<in> set evs \<longleftrightarrow> EnableWebsocket c))"
  by (simp add: stage_defs Let_def)

lemma wal_setup_EnableHTTP: "wal_setup (c\<lparr>EnableHTTP := b\<rparr>) e st = wal_setup c e st"
  by (simp add: wal_defs Let_def cong: sum.case_cong if_cong)

lemma later_EnableHTTP:
  "EnableMultiThreading c \<Longrightarrow>
   wiring (c\<lparr>EnableHTTP := b\<rparr>) e (shard_setup (c\<lparr>EnableHTTP := b\<rparr>) e (watch_setup (c\<lparr>EnableHTTP := b\<rparr>) st)) =
   wiring c e (shard_setup c e (watch_setup c st))"
  by (simp add: stage_defs numShards_def Let_def cong: sum.case_cong if_cong)

lemma startup_EnableHTTP:
  "EnableMultiThreading c \<Longrightarrow> startup (c\<lparr>EnableHTTP := b\<rparr>) e = startup c e"
  by (simp add: startup_def wal_setup_EnableHTTP later_EnableHTTP cong: sum.case_cong)

text \<open>C6 as stated fails: with \<^verbatim>\<open>enable-http\<close> and \<^verbatim>\<open>enable-websocket\<close> true,
  \<^verbatim>\<open>enable-multithreading\<close> false, \<^verbatim>\<open>enable-wal\<close> true and the default \<^verbatim>\<open>wal-engine\<close>,
  \<^verbatim>\<open>main\<close> returns at line 211 and neither front-end is constructed.\<close>

theorem C6_counterexample:
  "EnableHTTP (default_config\<lparr>EnableWAL := True, EnableHTTP := True, EnableWebsocket := True\<rparr>) \<and>
   \<not> EnableMultiThreading (default_config\<lparr>EnableWAL := True, EnableHTTP := True, EnableWebsocket := True\<rparr>) \<and>
   EnableWebsocket (default_config\<lparr>EnableWAL := True, EnableHTTP := True, EnableWebsocket := True\<rparr>) \<and>
   run_trace (default_config\<lparr>EnableWAL := True, EnableHTTP := True, EnableWebsocket := True\<rparr>) default_env =
     [GoPing, WithCancel (Ctx 0), NotifySigs, NewNullWAL, UnsupportedEngine, SendSigs SIGKILL] \<and>
   early_outcome (default_config\<lparr>EnableWAL := True, EnableHTTP := True, EnableWebsocket := True\<rparr>) default_env =
     Some Returned"
  by (simp add: eval_defs)

text \<open>C6, amended: in every run that completes start-up, the HTTP front-end is constructed
  and run if and only if \<^verbatim>\<open>enable-http\<close> is true and \<^verbatim>\<open>enable-multithreading\<close> is false;
  with \<^verbatim>\<open>enable-multithreading\<close> true the value of \<^verbatim>\<open>enable-http\<close> changes nothing; and
  the WebSocket front-end is constructed and run if and only if \<^verbatim>\<open>enable-websocket\<close> is
  true.\<close>

theorem C6_frontends:
  assumes "early_outcome c e = None"
  shows "(NewServer HTTPServer \<in> set (run_trace c e) \<longleftrightarrow> EnableHTTP c \<and> \<not> EnableMultiThreading c) \<and>
         (GoRunServer HTTPServer (Ctx 0) \<in> set (run_trace c e) \<longleftrightarrow> EnableHTTP c \<and> \<not> EnableMultiThreading c) \<and>
         (EnableMultiThreading c \<longrightarrow> startup (c\<lparr>EnableHTTP := b\<rparr>) e = startup c e) \<and>
         (NewServer WebSocketServer \<in> set (run_trace c e) \<longleftrightarrow> EnableWebsocket c) \<and>
         (GoRunServer WebSocketServer (Ctx 0) \<in> set (run_trace c e) \<longleftrightarrow> EnableWebsocket c)"
proof -
  obtain st0 where st0: "wal_setup c e (prologue e) = Inr st0"
    using assms by (cases "wal_setup c e (prologue e)") (auto simp: early_outcome_def startup_def)
  let ?R = "wiring c e (shard_setup c e (watch_setup c st0))"
  have R: "startup c e = ?R"
    using st0 by (rule startup_Inr)
  then have nl: "\<not> isl ?R"
    using assms by (cases ?R) (auto simp: early_outcome_def)
  obtain w where w: "trace st0 = trace (prologue e) @ w"
      "set w \<subseteq> wal_events e"
    using wal_setup_events [of c e "prologue e"] st0 by (auto simp: final_def)
  obtain evs where evs: "run_trace c e = trace st0 @ evs"
      "NewServer HTTPServer \<in> set evs \<longleftrightarrow> EnableHTTP c \<and> \<not> EnableMultiThreading c"
      "GoRunServer HTTPServer (Ctx 0) \<in> set evs \<longleftrightarrow> EnableHTTP c \<and> \<not> EnableMultiThreading c"
      "NewServer WebSocketServer \<in> set evs \<longleftrightarrow> EnableWebsocket c"
      "GoRunServer WebSocketServer (Ctx 0) \<in> set evs \<longleftrightarrow> EnableWebsocket c"
    using later_frontends [OF wal_Inr_ctx [OF st0], where c = c and e = e] nl
    unfolding run_trace_def R by blast
  have pre: "NewServer HTTPServer \<notin> set (trace st0)" "GoRunServer HTTPServer (Ctx 0) \<notin> set (trace st0)"
      "NewServer WebSocketServer \<notin> set (trace st0)" "GoRunServer WebSocketServer (Ctx 0) \<notin> set (trace st0)"
    using w by (auto simp: prologue_def)
  show ?thesis
    using evs pre by (simp add: startup_EnableHTTP)
qed

theorem C6_frontends_witness:
  "early_outcome (default_config\<lparr>EnableWAL := True, WALEngine := ''aof'', RestoreFromWAL := True,
                              EnableHTTP := True, EnableWebsocket := True\<rparr>) default_env = None \<and>
   GoRunServer HTTPServer (Ctx 0) \<in> set (run_trace (default_config\<lparr>EnableWAL := True, WALEngine := ''aof'',
      RestoreFromWAL := True, EnableHTTP := True, EnableWebsocket := True\<rparr>) default_env) \<and>
   GoRunServer WebSocketServer (Ctx 0) \<in> set (run_trace (default_config\<lparr>EnableWAL := True, WALEngine := ''aof'',
      RestoreFromWAL := True, EnableHTTP := True, EnableWebsocket := True\<rparr>) default_env) \<and>
   early_outcome (default_config\<lparr>EnableMultiThreading := True, EnableHTTP := True\<rparr>) default_env = None \<and>
   GoRunServer HTTPServer (Ctx 0) \<notin> set (run_trace (default_config\<lparr>EnableMultiThreading := True, EnableHTTP := True\<rparr>) default_env)"
proof -
  have a: "early_outcome (default_config\<lparr>EnableWAL := True, WALEngine := ''aof'', RestoreFromWAL := True,
                              EnableHTTP := True, EnableWebsocket := True\<rparr>) default_env = None"
    by (simp add: eval_defs)
  have b: "early_outcome (default_config\<lparr>EnableMultiThreading := True, EnableHTTP := True\<rparr>) default_env = None"
    by (simp add: eval_defs)
  show ?thesis
    using a b C6_frontends [OF a] C6_frontends [OF b]
    by (simp add: default_config_def)
qed

subsection \<open>The WAL engine\<close>

lemma wal_setup_sqlite:
  "EnableWAL c \<Longrightarrow> WALEngine c = ''sqlite'' \<Longrightarrow> sqlite_ok e \<Longrightarrow>
     \<exists>st. wal_setup c e (prologue e) = Inr st \<and> wl st = SQLiteWAL \<and>
          NewSQLiteWAL True \<in> set (trace st) \<and> WalInit (wal_init_ok e) \<in> set (trace st) \<and>
          (GoInitBG \<in> set (trace st) \<longleftrightarrow> wal_init_ok e)"
  by (simp add: wal_defs prologue_def Let_def)

lemma wal_setup_aof:
  "EnableWAL c \<Longrightarrow> WALEngine c = ''aof'' \<Longrightarrow> aof_ok e \<Longrightarrow>
     \<exists>st. wal_setup c e (prologue e) = Inr st \<and> wl st = AOFWAL \<and>
          NewAOFWAL True \<in> set (trace st) \<and> WalInit (wal_init_ok e) \<in> set (trace st) \<and>
          (GoInitBG \<in> set (trace st) \<longleftrightarrow> wal_init_ok e)"
  by (simp add: wal_defs prologue_def Let_def)

lemma wal_setup_unsupported:
  "EnableWAL c \<Longrightarrow> WALEngine c \<noteq> ''sqlite'' \<Longrightarrow> WALEngine c \<noteq> ''aof'' \<Longrightarrow>
     wal_setup c e (prologue e) =
       Inl (if sigs (prologue e) = [] then Returned else BlockedOnSend,
            \<lparr> trace = [GoPing, WithCancel (Ctx 0), NotifySigs, NewNullWAL, UnsupportedEngine] @
                      (if sigs (prologue e) = [] then [SendSigs SIGKILL] else []),
              ctx = Ctx 0, ctxDone = False,
              sigs = (if sigs (prologue e) = [] then [SIGKILL] else sigs (prologue e)),
              wl = NullWAL, wg = 0, serverWg = 0, started = [], spawned = [], deferred = [] \<rparr>)"
  by (simp add: wal_defs prologue_def emit_def Let_def)

lemma wal_setup_construct_fails:
  "EnableWAL c \<Longrightarrow> sigs (prologue e) = [] \<Longrightarrow>
   WALEngine c = ''sqlite'' \<and> \<not> sqlite_ok e \<or> WALEngine c = ''aof'' \<and> \<not> aof_ok e \<or>
   WALEngine c \<noteq> ''sqlite'' \<and> WALEngine c \<noteq> ''aof'' \<Longrightarrow>
     \<exists>s. wal_setup c e (prologue e) = Inl (Returned, s)"
  by (auto simp: wal_defs prologue_def Let_def)

lemma run_continues:
  assumes "wal_setup c e (prologue e) = Inr st"
  shows "wl (final (startup c e)) = wl st"
    and "set (trace st) \<subseteq> set (run_trace c e)"
    and "NewShardManager (word_of_int (numShards c e)) \<in> set (run_trace c e)"
proof -
  show "wl (final (startup c e)) = wl st"
    by (simp add: startup_Inr [OF assms] later_wl)
  obtain evs where "run_trace c e = trace st @ evs"
      "NewShardManager (word_of_int (numShards c e)) \<in> set evs"
    using later_events [OF wal_Inr_ctx [OF assms], where c = c and e = e]
    by (auto simp: run_trace_def startup_Inr [OF assms])
  then show "set (trace st) \<subseteq> set (run_trace c e)"
    and "NewShardManager (word_of_int (numShards c e)) \<in> set (run_trace c e)"
    by auto
qed

text \<open>C2 as stated fails: with \<^verbatim>\<open>enable-wal\<close> true and \<^verbatim>\<open>wal-engine\<close> \<^verbatim>\<open>null\<close> (the
  default), \<^verbatim>\<open>main\<close> reports an unsupported engine, sends SIGKILL on \<^verbatim>\<open>sigs\<close> and
  returns; and with \<^verbatim>\<open>wal-engine\<close> \<^verbatim>\<open>sqlite\<close> and a backend that cannot be created,
  start-up does not proceed either.\<close>

theorem C2_counterexample:
  "EnableWAL (default_config\<lparr>EnableWAL := True\<rparr>) \<and>
   WALEngine (default_config\<lparr>EnableWAL := True\<rparr>) = ''null'' \<and>
   run_trace (default_config\<lparr>EnableWAL := True\<rparr>) default_env =
     [GoPing, WithCancel (Ctx 0), NotifySigs, NewNullWAL, UnsupportedEngine, SendSigs SIGKILL] \<and>
   early_outcome (default_config\<lparr>EnableWAL := True\<rparr>) default_env = Some Returned \<and>
   EnableWAL (default_config\<lparr>EnableWAL := True, WALEngine := ''sqlite''\<rparr>) \<and>
   run_trace (default_config\<lparr>EnableWAL := True, WALEngine := ''sqlite''\<rparr>)
     (default_env\<lparr>sqlite_ok := False\<rparr>) =
     [GoPing, WithCancel (Ctx 0), NotifySigs, NewNullWAL, NewSQLiteWAL False, SendSigs SIGKILL] \<and>
   early_outcome (default_config\<lparr>EnableWAL := True, WALEngine := ''sqlite''\<rparr>)
     (default_env\<lparr>sqlite_ok := False\<rparr>) = Some Returned"
  by (simp add: eval_defs)

text \<open>C2, amended: with \<^verbatim>\<open>enable-wal\<close> true, \<^verbatim>\<open>wal-engine\<close> \<^verbatim>\<open>sqlite\<close> and
  \<^verbatim>\<open>aof\<close> select the SQLite and the AOF backend, and start-up goes on (\<^verbatim>\<open>Init\<close> is
  called and the shard manager created) once the backend is constructed. Every other
  value, \<^verbatim>\<open>null\<close> among them, is a fatal start-up error: the null WAL stays in place,
  \<^verbatim>\<open>main\<close> reports an unsupported engine and start-up goes no further (\<^verbatim>\<open>Init\<close> is not
  called, no shard manager is created); when nothing is queued on \<^verbatim>\<open>sigs\<close> at that
  point, \<^verbatim>\<open>main\<close> sends SIGKILL on it and returns.\<close>

theorem C2_wal_engine:
  assumes "EnableWAL c"
  shows "(WALEngine c = ''sqlite'' \<and> sqlite_ok e \<longrightarrow>
            wl (final (startup c e)) = SQLiteWAL \<and>
            WalInit (wal_init_ok e) \<in> set (run_trace c e) \<and>
            NewShardManager (word_of_int (numShards c e)) \<in> set (run_trace c e)) \<and>
         (WALEngine c = ''aof'' \<and> aof_ok e \<longrightarrow>
            wl (final (startup c e)) = AOFWAL \<and>
            WalInit (wal_init_ok e) \<in> set (run_trace c e) \<and>
            NewShardManager (word_of_int (numShards c e)) \<in> set (run_trace c e)) \<and>
         (WALEngine c \<noteq> ''sqlite'' \<and> WALEngine c \<noteq> ''aof'' \<longrightarrow>
            wl (final (startup c e)) = NullWAL \<and>
            take 5 (run_trace c e) =
              [GoPing, WithCancel (Ctx 0), NotifySigs, NewNullWAL, UnsupportedEngine] \<and>
            early_outcome c e \<noteq> None \<and>
            (\<forall>b. WalInit b \<notin> set (run_trace c e)) \<and>
            (\<forall>n. NewShardManager n \<notin> set (run_trace c e)) \<and>
            (sigs (prologue e) = [] \<longrightarrow>
               run_trace c e =
                 [GoPing, WithCancel (Ctx 0), NotifySigs, NewNullWAL, UnsupportedEngine,
                  SendSigs SIGKILL] \<and>
               early_outcome c e = Some Returned))"
proof (intro conjI impI)
  assume h: "WALEngine c = ''sqlite'' \<and> sqlite_ok e"
  then obtain st where st: "wal_setup c e (prologue e) = Inr st" "wl st = SQLiteWAL"
      "WalInit (wal_init_ok e) \<in> set (trace st)"
    using wal_setup_sqlite [OF assms, of e] by blast
  show "wl (final (startup c e)) = SQLiteWAL"
    and "WalInit (wal_init_ok e) \<in> set (run_trace c e)"
    and "NewShardManager (word_of_int (numShards c e)) \<in> set (run_trace c e)"
    using run_continues [OF st(1)] st(2,3) by auto
next
  assume h: "WALEngine c = ''aof'' \<and> aof_ok e"
  then obtain st where st: "wal_setup c e (prologue e) = Inr st" "wl st = AOFWAL"
      "WalInit (wal_init_ok e) \<in> set (trace st)"
    using wal_setup_aof [OF assms, of e] by blast
  show "wl (final (startup c e)) = AOFWAL"
    and "WalInit (wal_init_ok e) \<in> set (run_trace c e)"
    and "NewShardManager (word_of_int (numShards c e)) \<in> set (run_trace c e)"
    using run_continues [OF st(1)] st(2,3) by auto
next
  assume h: "WALEngine c \<noteq> ''sqlite'' \<and> WALEngine c \<noteq> ''aof''"
  note u = startup_Inl [OF wal_setup_unsupported [OF assms, of e]]
  have tr: "run_trace c e =
          [GoPing, WithCancel (Ctx 0), NotifySigs, NewNullWAL, UnsupportedEngine] @
          (if sigs (prologue e) = [] then [SendSigs SIGKILL] else [])"
    using h by (simp add: run_trace_def u final_def)
  have out: "early_outcome c e = Some (if sigs (prologue e) = [] then Returned else BlockedOnSend)"
    using h by (simp add: early_outcome_def u)
  show "wl (final (startup c e)) = NullWAL"
    using h by (simp add: u final_def)
  show "take 5 (run_trace c e) =
          [GoPing, WithCancel (Ctx 0), NotifySigs, NewNullWAL, UnsupportedEngine]"
    by (simp add: tr)
  show "early_outcome c e \<noteq> None"
    by (simp add: out)
  show "\<forall>b. WalInit b \<notin> set (run_trace c e)"
    by (simp add: tr)
  show "\<forall>n. NewShardManager n \<notin> set (run_trace c e)"
    by (simp add: tr)
  {
    assume z: "sigs (prologue e) = []"
    show "run_trace c e =
            [GoPing, WithCancel (Ctx 0), NotifySigs, NewNullWAL, UnsupportedEngine,
             SendSigs SIGKILL]"
      by (simp add: tr z)
    show "early_outcome c e = Some Returned"
      by (simp add: out z)
  }
qed

theorem C2_wal_engine_witness:
  "EnableWAL (default_config\<lparr>EnableWAL := True, WALEngine := ''sqlite''\<rparr>) \<and>
   WALEngine (default_config\<lparr>EnableWAL := True, WALEngine := ''sqlite''\<rparr>) = ''sqlite'' \<and>
   sqlite_ok default_env \<and>
   wl (final (startup (default_config\<lparr>EnableWAL := True, WALEngine := ''sqlite''\<rparr>) default_env)) = SQLiteWAL \<and>
   EnableWAL (default_config\<lparr>EnableWAL := True, WALEngine := ''aof''\<rparr>) \<and>
   WALEngine (default_config\<lparr>EnableWAL := True, WALEngine := ''aof''\<rparr>) = ''aof'' \<and>
   aof_ok default_env \<and>
   wl (final (startup (default_config\<lparr>EnableWAL := True, WALEngine := ''aof''\<rparr>) default_env)) = AOFWAL \<and>
   EnableWAL (default_config\<lparr>EnableWAL := True, WALEngine := ''rocksdb''\<rparr>) \<and>
   WALEngine (default_config\<lparr>EnableWAL := True, WALEngine := ''rocksdb''\<rparr>) \<noteq> ''sqlite'' \<and>
   WALEngine (default_config\<lparr>EnableWAL := True, WALEngine := ''rocksdb''\<rparr>) \<noteq> ''aof'' \<and>
   sigs (prologue default_env) = [] \<and>
   early_outcome (default_config\<lparr>EnableWAL := True, WALEngine := ''rocksdb''\<rparr>) default_env = Some Returned"
proof -
  have a: "EnableWAL (default_config\<lparr>EnableWAL := True, WALEngine := ''sqlite''\<rparr>)"
    and b: "EnableWAL (default_config\<lparr>EnableWAL := True, WALEngine := ''aof''\<rparr>)"
    and d: "EnableWAL (default_config\<lparr>EnableWAL := True, WALEngine := ''rocksdb''\<rparr>)"
    by simp_all
  have e: "sigs (prologue default_env) = []" "sqlite_ok default_env" "aof_ok default_env"
    by (simp_all add: prologue_def default_env_def)
  show ?thesis
    using C2_wal_engine [OF a, of default_env] C2_wal_engine [OF b, of default_env]
      C2_wal_engine [OF d, of default_env] e
    by simp
qed

section \<open>The invariant of the running process\<close>

lemma live_count_upd:
  "tasks s' = (tasks s)(k := t) \<Longrightarrow>
   live_count s' =
     (if live (tasks s k) = live t then live_count s
      else if live t then Suc (live_count s) else live_count s - 1)"
  by (cases k) (simp_all add: live_count_def)

lemma live_count_pos: "live (tasks s k) \<Longrightarrow> 0 < live_count s"
  by (cases k) (simp_all add: live_count_def)

lemma live_count_other [simp]:
  "live_count (s\<lparr>pc := a\<rparr>) = live_count s"
  "live_count (s\<lparr>srvWg := b\<rparr>) = live_count s"
  "live_count (s\<lparr>errCh := c'\<rparr>) = live_count s"
  "live_count (s\<lparr>errClosed := d\<rparr>) = live_count s"
  "live_count (s\<lparr>sigBuf := f\<rparr>) = live_count s"
  "live_count (s\<lparr>sigClosed := g\<rparr>) = live_count s"
  "live_count (s\<lparr>waiter := h\<rparr>) = live_count s"
  "live_count (s\<lparr>cancelled := i\<rparr>) = live_count s"
  "live_count (s\<lparr>shardMgrRunning := j\<rparr>) = live_count s"
  "live_count (s\<lparr>mainWg := l\<rparr>) = live_count s"
  "live_count (s\<lparr>walShutdown := m\<rparr>) = live_count s"
  "live_count (s\<lparr>crashed := n\<rparr>) = live_count s"
  by (simp_all add: live_count_def)

lemma inv_server_return:
  assumes "proc_inv c st s" and "server_return k r s = Some s'"
  shows "proc_inv c st s'"
proof -
  have run: "tasks s k = Running"
    and s': "s' = s\<lparr>tasks := (tasks s)(k := (case r of None \<Rightarrow> Exiting | Some er \<Rightarrow> Sending er))\<rparr>"
    using assms(2) by (simp_all add: server_return_def split: if_splits)
  have "live (case r of None \<Rightarrow> Exiting | Some er \<Rightarrow> Sending er)"
    by (cases r) simp_all
  moreover have "tasks s' = (tasks s)(k := (case r of None \<Rightarrow> Exiting | Some er \<Rightarrow> Sending er))"
    by (simp add: s')
  ultimately have "live_count s' = live_count s"
    using run live_count_upd [of s' s k] by simp
  then show ?thesis
    using assms(1) by (auto simp: proc_inv_def s')
qed

lemma inv_server_send:
  assumes "proc_inv c st s" and "server_send k s = Some s'"
  shows "proc_inv c st s'"
proof -
  obtain er where snd: "tasks s k = Sending er"
    using assms(2) by (cases "tasks s k") (simp_all add: server_send_def)
  then have pos: "0 < live_count s"
    using live_count_pos [of s k] by simp
  then have open': "\<not> errClosed s" and rng: "pc s = Ranging"
    using assms(1) by (auto simp: proc_inv_def)
  then have s': "s' = s\<lparr>errCh := errCh s @ [er], tasks := (tasks s)(k := Exiting)\<rparr>"
    using assms(2) snd by (simp add: server_send_def split: if_splits)
  have "tasks s' = (tasks s)(k := Exiting)"
    by (simp add: s')
  then have "live_count s' = live_count s"
    using snd live_count_upd [of s' s k Exiting] by simp
  then show ?thesis
    using assms(1) open' rng by (auto simp: proc_inv_def s')
qed

lemma inv_server_done:
  assumes "proc_inv c st s" and "server_done k s = Some s'"
  shows "proc_inv c st s'"
proof -
  have ex: "tasks s k = Exiting"
    and s': "s' = s\<lparr>tasks := (tasks s)(k := Finished), srvWg := srvWg s - 1\<rparr>"
    using assms(2) by (simp_all add: server_done_def split: if_splits)
  then have pos: "0 < live_count s"
    using live_count_pos [of s k] by simp
  then have open': "\<not> errClosed s" and rng: "pc s = Ranging"
    using assms(1) by (auto simp: proc_inv_def)
  have "tasks s' = (tasks s)(k := Finished)"
    by (simp add: s')
  then have "live_count s' = live_count s - 1"
    using ex live_count_upd [of s' s k Finished] by simp
  then show ?thesis
    using assms(1) open' rng by (auto simp: proc_inv_def s')
qed

lemma inv_closer_close:
  assumes "proc_inv c st s" and "closer_close s = Some s'"
  shows "proc_inv c st s'"
proof -
  have z: "srvWg s = 0" and s': "s' = s\<lparr>errClosed := True\<rparr>"
    using assms(2) by (simp_all add: closer_close_def split: if_splits)
  show ?thesis
    using assms(1) z by (auto simp: proc_inv_def s')
qed

lemma inv_main_step:
  assumes "proc_inv c st s" and "main_step c s = Some s'"
  shows "proc_inv c st s'"
proof (cases "pc s")
  case Ranging
  show ?thesis
  proof (cases "errCh s")
    case Nil
    then have "errClosed s" and "s' = s\<lparr>pc := ClosingSigs\<rparr>"
      using assms(2) Ranging by (simp_all add: main_step_def split: if_splits)
    then show ?thesis using assms(1) Ranging Nil by (auto simp: proc_inv_def)
  next
    case (Cons er rest)
    then have "s' = s\<lparr>errCh := rest, cancelled := (if er = ErrAborted then True else cancelled s)\<rparr>"
      using assms(2) Ranging by (simp add: main_step_def)
    then show ?thesis using assms(1) Ranging by (auto simp: proc_inv_def)
  qed
next
  case ClosingSigs
  then have "s' = s\<lparr>sigClosed := True, pc := ShuttingDownWAL\<rparr>"
    using assms(2) by (simp add: main_step_def)
  then show ?thesis using assms(1) ClosingSigs by (auto simp: proc_inv_def)
next
  case ShuttingDownWAL
  then have "s' = s\<lparr>walShutdown := (if EnableWAL c then True else walShutdown s), pc := Cancelling\<rparr>"
    using assms(2) by (simp add: main_step_def)
  then show ?thesis using assms(1) ShuttingDownWAL by (auto simp: proc_inv_def)
next
  case Cancelling
  then have "s' = s\<lparr>cancelled := True, pc := Waiting\<rparr>"
    using assms(2) by (simp add: main_step_def)
  then show ?thesis using assms(1) Cancelling by (auto simp: proc_inv_def)
next
  case Waiting
  then have "s' = s\<lparr>pc := Ended (if NilFunc \<in> set (stops s) then Panicked else Returned)\<rparr>"
    using assms(2) by (simp add: main_step_def split: if_splits)
  then show ?thesis using assms(1) Waiting by (auto simp: proc_inv_def)
next
  case (Ended h)
  then show ?thesis using assms(2) by (simp add: main_step_def)
qed

lemma inv_waiter_recv:
  assumes "proc_inv c st s" and "waiter_recv s = Some s'"
  shows "proc_inv c st s'"
proof (cases "sigBuf s")
  case Nil
  then have "s' = s\<lparr>waiter := GotSignal\<rparr>"
    using assms(2) by (simp add: waiter_recv_def split: if_splits)
  then show ?thesis
    using assms(1) by (auto simp: proc_inv_def)
next
  case (Cons sg rest)
  then have "s' = s\<lparr>sigBuf := rest, waiter := GotSignal\<rparr>"
    using assms(2) by (simp add: waiter_recv_def split: if_splits)
  then show ?thesis
    using assms(1) by (auto simp: proc_inv_def)
qed

lemma inv_waiter_cancel:
  assumes "proc_inv c st s" and "waiter_cancel s = Some s'"
  shows "proc_inv c st s'"
proof -
  have "s' = s\<lparr>cancelled := True, waiter := WaiterDone, mainWg := mainWg s - 1\<rparr>"
    using assms(2) by (simp add: waiter_cancel_def split: if_splits)
  then show ?thesis
    using assms(1) by (auto simp: proc_inv_def)
qed

lemma inv_shard_manager_return:
  assumes "proc_inv c st s" and "shard_manager_return s = Some s'"
  shows "proc_inv c st s'"
proof -
  have "s' = s\<lparr>shardMgrRunning := False, mainWg := mainWg s - 1\<rparr>"
    using assms(2) by (simp add: shard_manager_return_def split: if_splits)
  then show ?thesis
    using assms(1) by (auto simp: proc_inv_def)
qed

lemma inv_os_signal:
  assumes "proc_inv c st s" and "os_signal sg s = Some s'"
  shows "proc_inv c st s'"
proof (cases "sigClosed s")
  case True
  then have "s' = s\<lparr>crashed := True\<rparr>"
    using assms(2) by (simp add: os_signal_def split: if_splits)
  then show ?thesis
    using assms(1) by (auto simp: proc_inv_def)
next
  case False
  then have "s' = s\<lparr>sigBuf := notify sg (sigBuf s)\<rparr>"
    using assms(2) by (simp add: os_signal_def split: if_splits)
  then show ?thesis
    using assms(1) by (auto simp: proc_inv_def)
qed

lemma inv_step:
  assumes "proc_inv c st s" and "step c a s = Some s'"
  shows "proc_inv c st s'"
proof -
  have al: "alive s"
    using assms(2) by (simp add: step_def split: if_splits)
  show ?thesis
  proof (cases a)
    case (ServerReturn k r)
    then show ?thesis using assms al inv_server_return by (simp add: step_def)
  next
    case (ServerSend k)
    then show ?thesis using assms al inv_server_send by (simp add: step_def)
  next
    case (ServerDone k)
    then show ?thesis using assms al inv_server_done by (simp add: step_def)
  next
    case CloserClose
    then show ?thesis using assms al inv_closer_close by (simp add: step_def)
  next
    case MainStep
    then show ?thesis using assms al inv_main_step by (simp add: step_def)
  next
    case WaiterRecv
    then show ?thesis using assms al inv_waiter_recv by (simp add: step_def)
  next
    case WaiterCancel
    then show ?thesis using assms al inv_waiter_cancel by (simp add: step_def)
  next
    case ShardManagerReturn
    then show ?thesis using assms al inv_shard_manager_return by (simp add: step_def)
  next
    case (OsSignal sg)
    then show ?thesis using assms al inv_os_signal by (simp add: step_def)
  qed
qed

lemma inv_exec:
  "proc_inv c st s \<Longrightarrow> exec c as s = Some s' \<Longrightarrow> proc_inv c st s'"
proof (induction as arbitrary: s)
  case Nil
  then show ?case by simp
next
  case (Cons a as)
  from Cons.prems(2) obtain s1 where s1: "step c a s = Some s1" and rest: "exec c as s1 = Some s'"
    by (cases "step c a s") simp_all
  from Cons.prems(1) s1 have "proc_inv c st s1" by (rule inv_step)
  then show ?case using rest by (rule Cons.IH)
qed

section \<open>Shutdown, signals and the exit status\<close>

subsection \<open>Start-up establishes the invariant\<close>

lemma later_counts:
  "serverWg st = 0 \<Longrightarrow> started st = [] \<Longrightarrow> deferred st = [] \<Longrightarrow> spawned st = [] \<Longrightarrow>
   \<not> isl (wiring c e (shard_setup c e (watch_setup c st))) \<longrightarrow>
     serverWg (final (wiring c e (shard_setup c e (watch_setup c st)))) =
       live_count (init_proc (final (wiring c e (shard_setup c e (watch_setup c st))))) \<and>
     (NilFunc \<in> set (deferred (final (wiring c e (shard_setup c e (watch_setup c st))))) \<longleftrightarrow>
        EnableMultiThreading c \<and> EnableProfiling c \<and> \<not> profiling_ok e) \<and>
     spawned (final (wiring c e (shard_setup c e (watch_setup c st)))) =
       [ShardManagerRun, SignalWaiter, Closer]"
  by (simp add: stage_defs Let_def live_count_def init_proc_def)

lemma later_ctx:
  "ctx (final (wiring c e (shard_setup c e (watch_setup c st)))) = ctx st \<and>
   ctxDone (final (wiring c e (shard_setup c e (watch_setup c st)))) = ctxDone st"
  by (simp add: stage_defs Let_def)


lemma startup_Inr_facts:
  assumes "startup c e = Inr st"
  shows "serverWg st = live_count (init_proc st)"
    and "NilFunc \<in> set (deferred st) \<longleftrightarrow>
           EnableMultiThreading c \<and> EnableProfiling c \<and> \<not> profiling_ok e"
    and "spawned st = [ShardManagerRun, SignalWaiter, Closer]"
    and "ctx st = Ctx 0" and "\<not> ctxDone st"
proof -
  obtain st0 where st0: "wal_setup c e (prologue e) = Inr st0"
    using assms by (cases "wal_setup c e (prologue e)") (auto simp: startup_def)
  have z: "serverWg st0 = 0" "started st0 = []" "deferred st0 = []" "spawned st0 = []"
    and d: "\<not> ctxDone st0"
    using wal_setup_frame [OF st0] by (simp_all add: prologue_def)
  have R: "wiring c e (shard_setup c e (watch_setup c st0)) = Inr st"
    using assms startup_Inr [OF st0] by simp
  show "serverWg st = live_count (init_proc st)"
    and "NilFunc \<in> set (deferred st) \<longleftrightarrow>
           EnableMultiThreading c \<and> EnableProfiling c \<and> \<not> profiling_ok e"
    and "spawned st = [ShardManagerRun, SignalWaiter, Closer]"
    using later_counts [OF z, of c e] by (simp_all add: R final_def)
  show "ctx st = Ctx 0" and "\<not> ctxDone st"
    using later_ctx [of c e st0] wal_Inr_ctx [OF st0] d by (simp_all add: R final_def)
qed

lemma proc_inv_init:
  assumes "startup c e = Inr st"
  shows "proc_inv c st (init_proc st)"
proof -
  have "srvWg (init_proc st) = live_count (init_proc st)"
    using startup_Inr_facts(1) [OF assms] by (simp add: init_proc_def)
  moreover have "\<not> errClosed (init_proc st)" "pc (init_proc st) = Ranging"
      "\<not> walShutdown (init_proc st)" "waiter (init_proc st) = AwaitSignal"
      "stops (init_proc st) = deferred st"
    using startup_Inr_facts(3) [OF assms] by (simp_all add: init_proc_def)
  ultimately show ?thesis
    by (simp add: proc_inv_def)
qed


lemma reach_inv:
  assumes "reach c e as = Some s"
  obtains st where "startup c e = Inr st" and "proc_inv c st s"
proof -
  obtain st where st: "startup c e = Inr st" "exec c as (init_proc st) = Some s"
    using assms by (cases "startup c e") (simp_all add: reach_def)
  from proc_inv_init [OF st(1)] st(2) have "proc_inv c st s"
    by (rule inv_exec)
  with st(1) show ?thesis by (rule that)
qed


subsection \<open>The goroutines that start-up has started\<close>





subsection \<open>The WAL is shut down last\<close>





subsection \<open>One context, cancelled on a signal\<close>












subsection \<open>What follows a failure\<close>

lemma wiring_outcome:
  "isl (wiring c e st) \<longrightarrow> fst (projl (wiring c e st)) = BlockedOnSend"
  by (simp add: stage_defs Let_def)










subsection \<open>The exit status\<close>

lemma wal_construct_fails_sends:
  "EnableWAL c \<Longrightarrow> sigs (prologue e) = [] \<Longrightarrow>
   WALEngine c = ''sqlite'' \<and> \<not> sqlite_ok e \<or> WALEngine c = ''aof'' \<and> \<not> aof_ok e \<or>
   WALEngine c \<noteq> ''sqlite'' \<and> WALEngine c \<noteq> ''aof'' \<Longrightarrow>
     \<exists>s. wal_setup c e (prologue e) = Inl (Returned, s) \<and> SendSigs SIGKILL \<in> set (trace s)"
  by (auto simp: wal_defs prologue_def Let_def)

text \<open>C1 as stated fails: with \<^verbatim>\<open>enable-wal\<close> true and a SQLite backend that cannot be
  created, \<^verbatim>\<open>main\<close> returns, which is exit status 0; and with a backend whose
  \<^verbatim>\<open>Init\<close> fails, start-up goes on and the run can end in a clean shutdown with
  status 0.\<close>

theorem C1_counterexample:
  "EnableWAL (default_config\<lparr>EnableWAL := True, WALEngine := ''sqlite''\<rparr>) \<and>
   NewSQLiteWAL False \<in> set (run_trace (default_config\<lparr>EnableWAL := True, WALEngine := ''sqlite''\<rparr>)
                                  (default_env\<lparr>sqlite_ok := False\<rparr>)) \<and>
   Option.bind (early_outcome (default_config\<lparr>EnableWAL := True, WALEngine := ''sqlite''\<rparr>)
                  (default_env\<lparr>sqlite_ok := False\<rparr>)) exit_status = Some 0 \<and>
   EnableWAL (default_config\<lparr>EnableWAL := True, WALEngine := ''aof''\<rparr>) \<and>
   WalInit False \<in> set (run_trace (default_config\<lparr>EnableWAL := True, WALEngine := ''aof''\<rparr>)
                             (default_env\<lparr>wal_init_ok := False\<rparr>)) \<and>
   early_outcome (default_config\<lparr>EnableWAL := True, WALEngine := ''aof''\<rparr>)
     (default_env\<lparr>wal_init_ok := False\<rparr>) = None \<and>
   Option.bind (reach (default_config\<lparr>EnableWAL := True, WALEngine := ''aof''\<rparr>)
                  (default_env\<lparr>wal_init_ok := False\<rparr>)
                  [ServerReturn AsyncServer None, ServerDone AsyncServer, CloserClose, MainStep,
                   MainStep, WaiterRecv, WaiterCancel, MainStep, MainStep, ShardManagerReturn,
                   MainStep]) process_status = Some 0"
  by code_simp

text \<open>C1, amended: a fatal start-up error is not reported by the exit status. With
  \<^verbatim>\<open>enable-wal\<close> true and nothing queued on \<^verbatim>\<open>sigs\<close>, when the WAL backend cannot be
  created or the engine is unsupported, \<^verbatim>\<open>main\<close> sends SIGKILL on \<^verbatim>\<open>sigs\<close> and
  returns: exit status 0. A failing \<^verbatim>\<open>Init\<close> does not end the run: no background
  flusher is started, the shard manager is created and \<^verbatim>\<open>main\<close> does not return during
  start-up. And a run in which profiling did not fail to start and \<^verbatim>\<open>main\<close> reaches its
  end is a return of \<^verbatim>\<open>main\<close>, with exit status 0.\<close>

theorem C1_exit_status:
  "(EnableWAL c \<and> sigs (prologue e) = [] \<and>
    (WALEngine c = ''sqlite'' \<and> \<not> sqlite_ok e \<or> WALEngine c = ''aof'' \<and> \<not> aof_ok e \<or>
     WALEngine c \<noteq> ''sqlite'' \<and> WALEngine c \<noteq> ''aof'') \<longrightarrow>
      SendSigs SIGKILL \<in> set (run_trace c e) \<and>
      early_outcome c e = Some Returned \<and> exit_status Returned = Some 0) \<and>
   (EnableWAL c \<and> \<not> wal_init_ok e \<and>
    (WALEngine c = ''sqlite'' \<and> sqlite_ok e \<or> WALEngine c = ''aof'' \<and> aof_ok e) \<longrightarrow>
      WalInit False \<in> set (run_trace c e) \<and> GoInitBG \<notin> set (run_trace c e) \<and>
      NewShardManager (word_of_int (numShards c e)) \<in> set (run_trace c e) \<and>
      early_outcome c e \<noteq> Some Returned) \<and>
   (\<forall>as s h. reach c e as = Some s \<and> pc s = Ended h \<and>
        \<not> (EnableMultiThreading c \<and> EnableProfiling c \<and> \<not> profiling_ok e) \<longrightarrow>
      h = Returned \<and> exit_status h = Some 0)"
proof (intro conjI impI allI)
  assume h: "EnableWAL c \<and> sigs (prologue e) = [] \<and>
    (WALEngine c = ''sqlite'' \<and> \<not> sqlite_ok e \<or> WALEngine c = ''aof'' \<and> \<not> aof_ok e \<or>
     WALEngine c \<noteq> ''sqlite'' \<and> WALEngine c \<noteq> ''aof'')"
  then obtain s where s: "wal_setup c e (prologue e) = Inl (Returned, s)"
      "SendSigs SIGKILL \<in> set (trace s)"
    using wal_construct_fails_sends [of c e] by blast
  then show "early_outcome c e = Some Returned"
    by (simp add: early_outcome_def startup_Inl)
  show "SendSigs SIGKILL \<in> set (run_trace c e)"
    using s by (simp add: run_trace_def startup_Inl final_def)
  show "exit_status Returned = Some 0" by simp
next
  assume h: "EnableWAL c \<and> \<not> wal_init_ok e \<and>
    (WALEngine c = ''sqlite'' \<and> sqlite_ok e \<or> WALEngine c = ''aof'' \<and> aof_ok e)"
  then obtain st where st: "wal_setup c e (prologue e) = Inr st"
      "WalInit (wal_init_ok e) \<in> set (trace st)" "GoInitBG \<in> set (trace st) \<longleftrightarrow> wal_init_ok e"
    using wal_setup_sqlite [of c e] wal_setup_aof [of c e] by blast
  obtain evs where evs: "run_trace c e = trace st @ evs"
      "set evs \<subseteq> wiring_events c e"
    using later_events [OF wal_Inr_ctx [OF st(1)], where c = c and e = e]
    by (auto simp: run_trace_def startup_Inr [OF st(1)])
  show "WalInit False \<in> set (run_trace c e)"
    using run_continues(2) [OF st(1)] st(2) h by auto
  show "GoInitBG \<notin> set (run_trace c e)"
    using evs st(3) h by auto
  show "NewShardManager (word_of_int (numShards c e)) \<in> set (run_trace c e)"
    using st(1) by (rule run_continues(3))
  show "early_outcome c e \<noteq> Some Returned"
    using wiring_outcome [of c e "shard_setup c e (watch_setup c st)"]
    by (cases "wiring c e (shard_setup c e (watch_setup c st))")
       (auto simp: early_outcome_def startup_Inr [OF st(1)])
next
  fix as s h
  assume r: "reach c e as = Some s \<and> pc s = Ended h \<and>
        \<not> (EnableMultiThreading c \<and> EnableProfiling c \<and> \<not> profiling_ok e)"
  then obtain st where st: "startup c e = Inr st" "proc_inv c st s"
    using reach_inv [of c e as s] by blast
  have "h = (if NilFunc \<in> set (deferred st) then Panicked else Returned)"
    using st(2) r by (simp add: proc_inv_def)
  then show "h = Returned" "exit_status h = Some 0"
    using startup_Inr_facts(2) [OF st(1)] r by simp_all
qed

lemma C1_ex_run:
  "map_option pc (reach default_config default_env
     [ServerReturn AsyncServer None, ServerDone AsyncServer, CloserClose, MainStep,
      MainStep, WaiterRecv, WaiterCancel, MainStep, MainStep, ShardManagerReturn,
      MainStep]) = Some (Ended Returned)"
  by code_simp

theorem C1_exit_status_witness:
  "EnableWAL (default_config\<lparr>EnableWAL := True, WALEngine := ''sqlite''\<rparr>) \<and>
   sigs (prologue (default_env\<lparr>sqlite_ok := False\<rparr>)) = [] \<and>
   WALEngine (default_config\<lparr>EnableWAL := True, WALEngine := ''sqlite''\<rparr>) = ''sqlite'' \<and>
   \<not> sqlite_ok (default_env\<lparr>sqlite_ok := False\<rparr>) \<and>
   early_outcome (default_config\<lparr>EnableWAL := True, WALEngine := ''sqlite''\<rparr>)
     (default_env\<lparr>sqlite_ok := False\<rparr>) = Some Returned \<and>
   EnableWAL (default_config\<lparr>EnableWAL := True, WALEngine := ''aof''\<rparr>) \<and>
   \<not> wal_init_ok (default_env\<lparr>wal_init_ok := False\<rparr>) \<and>
   aof_ok (default_env\<lparr>wal_init_ok := False\<rparr>) \<and>
   WalInit False \<in> set (run_trace (default_config\<lparr>EnableWAL := True, WALEngine := ''aof''\<rparr>)
                             (default_env\<lparr>wal_init_ok := False\<rparr>)) \<and>
   \<not> EnableMultiThreading default_config \<and>
   (\<exists>s. reach default_config default_env
          [ServerReturn AsyncServer None, ServerDone AsyncServer, CloserClose, MainStep,
           MainStep, WaiterRecv, WaiterCancel, MainStep, MainStep, ShardManagerReturn,
           MainStep] = Some s \<and>
        pc s = Ended Returned \<and> exit_status Returned = Some 0)"
proof -
  have a: "sigs (prologue (default_env\<lparr>sqlite_ok := False\<rparr>)) = []"
      "\<not> wal_init_ok (default_env\<lparr>wal_init_ok := False\<rparr>)"
      "aof_ok (default_env\<lparr>wal_init_ok := False\<rparr>)"
      "\<not> EnableMultiThreading default_config"
    by (simp_all add: prologue_def default_env_def default_config_def)
  obtain s where s: "reach default_config default_env
          [ServerReturn AsyncServer None, ServerDone AsyncServer, CloserClose, MainStep,
           MainStep, WaiterRecv, WaiterCancel, MainStep, MainStep, ShardManagerReturn,
           MainStep] = Some s" "pc s = Ended Returned"
    using C1_ex_run by auto
  show ?thesis
    using a s
      C1_exit_status [of "default_config\<lparr>EnableWAL := True, WALEngine := ''sqlite''\<rparr>"
        "default_env\<lparr>sqlite_ok := False\<rparr>"]
      C1_exit_status [of "default_config\<lparr>EnableWAL := True, WALEngine := ''aof''\<rparr>"
        "default_env\<lparr>wal_init_ok := False\<rparr>"]
      C1_exit_status [of default_config default_env]
    by auto
qed

end
